theory Spec2Isabelle
  imports Main "HOL-Library.AList"
begin

section \<open>JavaScript strings and values\<close>

text \<open>
  A JavaScript string is modelled as a \<^typ>\<open>string\<close>: the list of the bytes of its UTF-8
  encoding. \<open>toLowerCase\<close> and the whitespace class of \<open>/\s+/\<close> are modelled on the ASCII
  range (letters \<open>A\<close>..\<open>Z\<close>; tab, line feed, vertical tab, form feed, carriage return and
  space); text outside of ASCII is passed through unchanged. A JavaScript object used as a
  dictionary is an association list of its own properties in insertion order. A read
  \<open>obj[key]\<close> of a key that the object does not have itself finds the members that every
  object inherits from \<open>Object.prototype\<close>; the test of \<open>Columns[key]\<close> in
  \<open>extractDynamicColumns\<close>, whose keys come from the logs, is modelled with them. The
  text that a dynamic column of such a name renders for a result without that property is
  outside the model.
\<close>

type_synonym 'v dict = "(string \<times> 'v) list"

definition toLowerCase_char :: "char \<Rightarrow> char" where
  "toLowerCase_char c =
     (case map_of (zip ''ABCDEFGHIJKLMNOPQRSTUVWXYZ'' ''abcdefghijklmnopqrstuvwxyz'') c of
        Some l \<Rightarrow> l
      | None \<Rightarrow> c)"

definition toLowerCase :: "string \<Rightarrow> string" where
  "toLowerCase s = map toLowerCase_char s"

definition isSpace :: "char \<Rightarrow> bool" where
  "isSpace c = (c \<in> set [CHR 0x09, CHR 0x0A, CHR 0x0B, CHR 0x0C, CHR 0x0D, CHR 0x20])"

text \<open>\<open>s.split(/\s+/)\<close>: the pieces of \<open>s\<close> between maximal runs of whitespace, empty pieces
  at the ends included. The first argument accumulates the current piece, reversed.\<close>

function split_ws :: "string \<Rightarrow> string \<Rightarrow> string list" where
  "split_ws cur [] = [rev cur]"
| "split_ws cur (c # cs) =
     (if isSpace c then rev cur # split_ws [] (dropWhile isSpace cs)
      else split_ws (c # cur) cs)"
  by pat_completeness auto
termination
  by (relation "measure (\<lambda>(cur, s). length s)")
     (auto simp: length_dropWhile_le less_Suc_eq_le)

text \<open>\<open>field.includes(keyword)\<close>: \<open>keyword\<close> occurs in \<open>field\<close> as a contiguous piece.\<close>

fun startsWith :: "string \<Rightarrow> string \<Rightarrow> bool" where
  "startsWith s [] = True"
| "startsWith [] (k # ks) = False"
| "startsWith (c # cs) (k # ks) = (c = k \<and> startsWith cs ks)"

fun includes_str :: "string \<Rightarrow> string \<Rightarrow> bool" where
  "includes_str [] keyword = (keyword = [])"
| "includes_str (c # cs) keyword = (startsWith (c # cs) keyword \<or> includes_str cs keyword)"

text \<open>The em dash \<open>U+2014\<close> that the columns render for a missing value, in UTF-8.\<close>

definition emdash :: string where
  "emdash = [CHR 0xE2, CHR 0x80, CHR 0x94]"

text \<open>JSON values, as \<open>JSON.parse\<close> produces them. A number is an integer, one that
  JavaScript holds exactly and prints with all its digits.\<close>

datatype jsvalue =
    JNull
  | JBool bool
  | JNum int
  | JStr string
  | JArr "jsvalue list"
  | JObj "(string \<times> jsvalue) list"

function decimal :: "nat \<Rightarrow> string" where
  "decimal n =
     (if n < 10 then [''0123456789'' ! n]
      else decimal (n div 10) @ [''0123456789'' ! (n mod 10)])"
  by pat_completeness auto
termination
  by (relation "measure id") auto

text \<open>\<open>Number.prototype.toString\<close> and \<open>String(n)\<close> on an integer.\<close>

definition Number_toString :: "int \<Rightarrow> string" where
  "Number_toString i = (if i < 0 then ''-'' @ decimal (nat (- i)) else decimal (nat i))"

text \<open>The escapes of \<open>JSON.stringify\<close> inside a string literal: the quote, the backslash
  and the control characters below \<open>U+0020\<close>.\<close>

definition quote_char :: "char \<Rightarrow> string" where
  "quote_char c =
     (if c = CHR 0x22 then [CHR 0x5C, CHR 0x22]
      else if c = CHR 0x5C then [CHR 0x5C, CHR 0x5C]
      else if c = CHR 0x08 then [CHR 0x5C, CHR ''b'']
      else if c = CHR 0x09 then [CHR 0x5C, CHR ''t'']
      else if c = CHR 0x0A then [CHR 0x5C, CHR ''n'']
      else if c = CHR 0x0C then [CHR 0x5C, CHR ''f'']
      else if c = CHR 0x0D then [CHR 0x5C, CHR ''r'']
      else if (of_char c :: nat) < 32
        then [CHR 0x5C, CHR ''u'', CHR ''0'', CHR ''0'',
              ''0123456789abcdef'' ! ((of_char c :: nat) div 16),
              ''0123456789abcdef'' ! ((of_char c :: nat) mod 16)]
      else [c])"

definition quote :: "string \<Rightarrow> string" where
  "quote s = [CHR 0x22] @ concat (map quote_char s) @ [CHR 0x22]"

fun join :: "string \<Rightarrow> string list \<Rightarrow> string" where
  "join sep [] = []"
| "join sep [x] = x"
| "join sep (x # y # ys) = x @ sep @ join sep (y # ys)"

text \<open>\<open>JSON.stringify(value)\<close> without indentation.\<close>

fun JSON_stringify :: "jsvalue \<Rightarrow> string" where
  "JSON_stringify JNull = ''null''"
| "JSON_stringify (JBool b) = (if b then ''true'' else ''false'')"
| "JSON_stringify (JNum i) = Number_toString i"
| "JSON_stringify (JStr s) = quote s"
| "JSON_stringify (JArr vs) = ''['' @ join '','' (map JSON_stringify vs) @ '']''"
| "JSON_stringify (JObj kvs) =
     ''{'' @ join '','' (map (\<lambda>(k, v). quote k @ '':'' @ JSON_stringify v) kvs) @ ''}''"

text \<open>The text of a property value in a dynamic column: the em dash for \<open>null\<close>,
  \<open>JSON.stringify(value)\<close> for a value whose \<open>typeof\<close> is \<open>object\<close>, and \<open>String(value)\<close> for
  a string, a number or a boolean.\<close>

fun property_text :: "jsvalue \<Rightarrow> string" where
  "property_text JNull = emdash"
| "property_text (JArr vs) = JSON_stringify (JArr vs)"
| "property_text (JObj kvs) = JSON_stringify (JObj kvs)"
| "property_text (JStr str) = str"
| "property_text (JNum i) = Number_toString i"
| "property_text (JBool b) = (if b then ''true'' else ''false'')"

section \<open>The data of a log\<close>

text \<open>
  The types of the \<open>sarif\<close> package, with the fields the stores read. A field \<open>_x\<close> that the
  augmentation adds to a result is written \<open>r_x\<close>, one added to a log \<open>l_x\<close>; the back
  reference \<open>result._log\<close> is kept as the uri of that log, \<open>r_log_uri\<close>.
\<close>

record Region =
  startLine :: "int option"

record ArtifactLocation =
  al_uri :: "string option"
  al_uriBaseId :: "string option"

record PhysicalLocation =
  artifactLocation :: "ArtifactLocation option"
  region :: "Region option"

record Location =
  physicalLocation :: "PhysicalLocation option"

record ReportingDescriptor =
  rule_name :: "string option"

record Result =
  level :: "string option"
  baselineState :: "string option"
  ruleId :: "string option"
  properties :: "jsvalue dict option"
  locations :: "Location list option"
  r_id :: jsvalue
  r_uri :: "string option"
  r_relativeUri :: "string option"
  r_region :: "Region option"
  r_message :: "string option"
  r_suppression :: "string option"
  r_rule :: "ReportingDescriptor option"
  r_log_uri :: "string option"

record Run =
  results :: "Result list option"

record Log =
  runs :: "Run list option"
  l_uri :: "string option"
  l_uriUpgraded :: "string option"

section \<open>The state of the index store\<close>

text \<open>\<open>Visibility\<close> is \<open>'visible' | false\<close>; the test \<open>if (state)\<close> holds of \<open>'visible'\<close> only.\<close>

datatype Visibility = visible | hidden

fun truthy :: "Visibility \<Rightarrow> bool" where
  "truthy visible = True"
| "truthy hidden = False"

datatype ResultStatus = Unchecked | True_positive | False_positive

text \<open>Modelled from the spec: the rows of \<open>tableStore.ts\<close>, which is not among the sources.
  A row is a closed set of two variants: a group (its key, its expand flag, its filtered
  items) or an item wrapping a result.\<close>

datatype 'g Row =
    RowGroup 'g bool "Result list"
  | RowItem Result

datatype Tab = Locations | Rules | Logs

record FiltersColumn =
  Columns :: "Visibility dict"

text \<open>The messages that the modelled code hands to \<open>vscode.postMessage\<close>. \<open>setState\<close> carries
  the state that the source serialises with \<open>JSON.stringify\<close>.\<close>

datatype MessageToHost =
    post_setState "Visibility dict dict" FiltersColumn
  | post_setResultStatus string ResultStatus
  | post_select "string option" "string option" "string option" "Region option" jsvalue

datatype error =
    TypeError
  | MobxError
  | SyntaxError
  | Error string

text \<open>
  The observable fields of \<open>IndexStore\<close>; its field of the keyword text is written
  \<open>keywords_str\<close>. \<open>posted\<close> is the channel to the host: the messages
  sent so far, oldest first. \<open>defaultSelection_pending\<close> is the one-shot \<open>when\<close> reaction of the
  constructor, armed or not.
\<close>

record 'g IndexStore =
  banner :: string
  resultStatuses :: "string \<rightharpoonup> ResultStatus"
  dynamicColumns :: "string list"
  logs :: "Log list"
  resultsFixed :: "string list"
  selection :: "'g Row option"
  columnOrder :: "string list"
  keywords_str :: string
  filtersRow :: "Visibility dict dict"
  filtersColumn :: FiltersColumn
  selectedTab :: Tab
  defaultSelection_pending :: bool
  posted :: "MessageToHost list"

text \<open>
  What \<open>indexStore.ts\<close> imports from \<open>../shared\<close>, which is not among the sources, is a
  parameter of the model: the default filters, the augmentation of a log, the lookup of a
  result by its identity and the resolution of an artifact location.
\<close>

record Shared =
  shared_filtersRow :: "Visibility dict dict"
  shared_filtersColumn :: FiltersColumn
  augmentLog :: "Log \<Rightarrow> Log"
  findResult :: "Log list \<Rightarrow> jsvalue \<Rightarrow> Result option"
  parseArtifactLocation ::
    "Result \<Rightarrow> ArtifactLocation option \<Rightarrow> string option \<times> string option \<times> string option"

text \<open>The object spread \<open>{...a, ...b}\<close>: the properties of \<open>a\<close>, overwritten or followed by
  those of \<open>b\<close>.\<close>

definition spread :: "'v dict \<Rightarrow> 'v dict \<Rightarrow> 'v dict" where
  "spread a b = fold (\<lambda>(k, v). AList.update k v) b a"

text \<open>The listener \<open>setState\<close> that \<open>observe\<close> attaches to the three row-filter categories and
  to the column filters.\<close>

definition setState :: "'g IndexStore \<Rightarrow> 'g IndexStore" where
  "setState s = s\<lparr>posted := posted s @ [post_setState (filtersRow s) (filtersColumn s)]\<rparr>"

section \<open>Selection and the host\<close>

text \<open>\<open>isActive()\<close> of \<open>./isActive\<close> is the argument \<open>active\<close>: whether this panel has the focus
  when the reaction runs.\<close>

definition postSelectArtifact ::
  "Shared \<Rightarrow> bool \<Rightarrow> Result \<Rightarrow> PhysicalLocation option \<Rightarrow> 'g IndexStore \<Rightarrow> 'g IndexStore" where
  "postSelectArtifact sh active result ploc s =
     (if \<not> active then s
      else case ploc of
        None \<Rightarrow> s
      | Some pl \<Rightarrow>
          (case parseArtifactLocation sh result (artifactLocation pl) of
             (uri, uriBase, uriContent) \<Rightarrow>
               s\<lparr>posted := posted s @
                  [post_select (r_log_uri result)
                     (case uriContent of Some u \<Rightarrow> Some u | None \<Rightarrow> uri)
                     uriBase (region pl) (r_id result)]\<rparr>))"

text \<open>\<open>result.locations?.[0]?.physicalLocation\<close>\<close>

definition first_physicalLocation :: "Result \<Rightarrow> PhysicalLocation option" where
  "first_physicalLocation result =
     (case locations result of
        None \<Rightarrow> None
      | Some [] \<Rightarrow> None
      | Some (l # ls) \<Rightarrow> physicalLocation l)"

text \<open>The body of the \<open>autorun\<close> of the constructor.\<close>

definition autorun :: "Shared \<Rightarrow> bool \<Rightarrow> 'g IndexStore \<Rightarrow> 'g IndexStore" where
  "autorun sh active s =
     (case selection s of
        Some (RowItem result) \<Rightarrow>
          (case r_uri result of
             None \<Rightarrow> s
           | Some u \<Rightarrow>
               if u = [] then s
               else postSelectArtifact sh active result (first_physicalLocation result) s)
      | _ \<Rightarrow> s)"

text \<open>\<open>this.selection.set(row)\<close>: the box changes, and the \<open>autorun\<close> that read it runs again;
  setting the value the box holds already changes nothing.\<close>

definition selection_set ::
  "Shared \<Rightarrow> bool \<Rightarrow> 'g Row option \<Rightarrow> 'g IndexStore \<Rightarrow> 'g IndexStore" where
  "selection_set sh active row s =
     (if selection s = row then s else autorun sh active (s\<lparr>selection := row\<rparr>))"

text \<open>Modelled from the spec: \<open>TableStore.select\<close> of \<open>tableStore.ts\<close>, which is not among the
  sources. It sets the selection by result identity: the shared selection becomes the
  item row of the result.\<close>

definition select ::
  "Shared \<Rightarrow> bool \<Rightarrow> Result \<Rightarrow> 'g IndexStore \<Rightarrow> 'g IndexStore" where
  "select sh active result s = selection_set sh active (Some (RowItem result)) s"

section \<open>The index store\<close>

text \<open>
  The constructor. \<open>state\<close> is the persisted blob. Reading \<open>this.filtersRow.Level\<close> throws a
  \<open>TypeError\<close> when the blob has no \<open>filtersRow\<close>, and \<open>observe\<close> throws on a category that is
  \<open>undefined\<close>. The first run of the \<open>autorun\<close> finds no selection and posts nothing. The
  argument \<open>workspaceUri\<close> and the map \<open>driverlessRules\<close> are only handed to the augmentation:
  they belong to the parameter \<open>augmentLog\<close>.
\<close>

definition IndexStore_constructor ::
  "Shared \<Rightarrow> Visibility dict dict dict \<Rightarrow> bool \<Rightarrow> error + 'g IndexStore" where
  "IndexStore_constructor sh state defaultSelection =
     (case map_of state ''filtersRow'' of
        None \<Rightarrow> Inl TypeError
      | Some fr \<Rightarrow>
          if map_of fr ''Level'' = None \<or> map_of fr ''Baseline'' = None
             \<or> map_of fr ''Suppression'' = None
          then Inl MobxError
          else Inr \<lparr>
            banner = [],
            resultStatuses = Map.empty,
            dynamicColumns = [],
            logs = [],
            resultsFixed = [],
            selection = None,
            columnOrder = [],
            keywords_str = [],
            filtersRow = fr,
            filtersColumn = \<lparr>Columns =
              spread (Columns (shared_filtersColumn sh))
                (case map_of state ''filtersColumn'' of
                   None \<Rightarrow> []
                 | Some fc \<Rightarrow> (case map_of fc ''Columns'' of None \<Rightarrow> [] | Some c \<Rightarrow> c))\<rparr>,
            selectedTab = Locations,
            defaultSelection_pending = defaultSelection,
            posted = []\<rparr>)"

text \<open>The effect of the \<open>when\<close> reaction, once the rows of the store by location are not
  empty; \<open>rows\<close> are those rows (\<open>TableStore.rows\<close> is not among the sources).\<close>

definition defaultSelection_when ::
  "Shared \<Rightarrow> bool \<Rightarrow> 'g Row list \<Rightarrow> 'g IndexStore \<Rightarrow> 'g IndexStore" where
  "defaultSelection_when sh active rows s =
     (if defaultSelection_pending s \<and> rows \<noteq> []
      then selection_set sh active
             (find (\<lambda>row. case row of RowItem r \<Rightarrow> True | _ \<Rightarrow> False) rows)
             (s\<lparr>defaultSelection_pending := False\<rparr>)
      else s)"

definition setColumnOrder :: "string list \<Rightarrow> 'g IndexStore \<Rightarrow> 'g IndexStore" where
  "setColumnOrder order s = s\<lparr>columnOrder := order\<rparr>"

text \<open>\<open>this.filtersRow[column][value] = v\<close>; the listener \<open>setState\<close> observes the categories
  \<open>Level\<close>, \<open>Baseline\<close> and \<open>Suppression\<close>, and is told of a value that changes.\<close>

definition filtersRow_set ::
  "string \<Rightarrow> string \<Rightarrow> Visibility \<Rightarrow> 'g IndexStore \<Rightarrow> 'g IndexStore" where
  "filtersRow_set column val v s =
     (case map_of (filtersRow s) column of
        None \<Rightarrow> s
      | Some record \<Rightarrow>
          if map_of record val = Some v then s
          else
            let s1 = s\<lparr>filtersRow :=
                        AList.update column (AList.update val v record) (filtersRow s)\<rparr>
            in if column \<in> set [''Level'', ''Baseline'', ''Suppression''] then setState s1
               else s1)"

definition clearFilters :: "'g IndexStore \<Rightarrow> 'g IndexStore" where
  "clearFilters s =
     fold (\<lambda>(column, record). fold (\<lambda>(val, v). filtersRow_set column val visible) record)
       (filtersRow s) (s\<lparr>keywords_str := []\<rparr>)"

subsection \<open>Dynamic columns\<close>

text \<open>\<open>propertyKeys.add(key)\<close> on a \<open>Set\<close>, kept in insertion order.\<close>

definition Set_add :: "string \<Rightarrow> string list \<Rightarrow> string list" where
  "Set_add key ks = (if key \<in> set ks then ks else ks @ [key])"

definition log_results :: "Log \<Rightarrow> Result list" where
  "log_results log =
     concat (map (\<lambda>run. case results run of None \<Rightarrow> [] | Some rs \<Rightarrow> rs)
       (case runs log of None \<Rightarrow> [] | Some rs \<Rightarrow> rs))"

text \<open>The keys of one result that reach \<open>propertyKeys.add\<close>.\<close>

definition result_propertyKeys :: "Result \<Rightarrow> string list" where
  "result_propertyKeys result =
     (case properties result of
        None \<Rightarrow> []
      | Some ps \<Rightarrow> filter (\<lambda>key. key \<noteq> ''tags'') (map fst ps))"

definition propertyKeys :: "Log \<Rightarrow> string list" where
  "propertyKeys log =
     fold Set_add (concat (map result_propertyKeys (log_results log))) []"

text \<open>\<open>this.filtersColumn.Columns[key] = value\<close>; the listener \<open>setState\<close> is told of a
  property that is new or whose value changes.\<close>

definition Columns_set :: "string \<Rightarrow> Visibility \<Rightarrow> 'g IndexStore \<Rightarrow> 'g IndexStore" where
  "Columns_set key v s =
     (if map_of (Columns (filtersColumn s)) key = Some v then s
      else setState
             (s\<lparr>filtersColumn := \<lparr>Columns = AList.update key v (Columns (filtersColumn s))\<rparr>\<rparr>))"

text \<open>The names of the members of \<open>Object.prototype\<close>. Each of them is a function, and
  \<open>__proto__\<close> is the prototype itself: all are truthy.\<close>

definition Object_prototype_names :: "string list" where
  "Object_prototype_names =
     [''constructor'', ''__defineGetter__'', ''__defineSetter__'', ''hasOwnProperty'',
      ''__lookupGetter__'', ''__lookupSetter__'', ''isPrototypeOf'', ''propertyIsEnumerable'',
      ''toString'', ''valueOf'', ''__proto__'', ''toLocaleString'']"

text \<open>Whether \<open>this.filtersColumn.Columns[key]\<close> is truthy: the entry of the object itself
  when it has one, and else the member that it inherits, if any.\<close>

definition Columns_truthy :: "Visibility dict \<Rightarrow> string \<Rightarrow> bool" where
  "Columns_truthy cols key =
     (case map_of cols key of
        Some v \<Rightarrow> truthy v
      | None \<Rightarrow> key \<in> set Object_prototype_names)"

text \<open>The body of the last \<open>forEach\<close> of \<open>extractDynamicColumns\<close>.\<close>

definition addDynamicColumn :: "string \<Rightarrow> 'g IndexStore \<Rightarrow> 'g IndexStore" where
  "addDynamicColumn key s =
     (if key \<in> set (dynamicColumns s) then s
      else
        let s1 = s\<lparr>dynamicColumns := dynamicColumns s @ [key]\<rparr> in
        if \<not> Columns_truthy (Columns (filtersColumn s1)) key then Columns_set key hidden s1
        else s1)"

definition extractDynamicColumns :: "Log \<Rightarrow> 'g IndexStore \<Rightarrow> 'g IndexStore" where
  "extractDynamicColumns log s = fold addDynamicColumn (propertyKeys log) s"

subsection \<open>The list of logs and its observers\<close>

text \<open>The listener of \<open>observe(this.logs, ...)\<close>, which runs after each splice.\<close>

definition logs_observer :: "Shared \<Rightarrow> bool \<Rightarrow> 'g IndexStore \<Rightarrow> 'g IndexStore" where
  "logs_observer sh active s =
     (if logs s \<noteq> [] then s else selection_set sh active None s)"

text \<open>\<open>this.logs.splice(i, 1)\<close>: the interceptor has nothing added to look at.\<close>

definition logs_splice :: "Shared \<Rightarrow> bool \<Rightarrow> nat \<Rightarrow> 'g IndexStore \<Rightarrow> 'g IndexStore" where
  "logs_splice sh active i s =
     logs_observer sh active (s\<lparr>logs := take i (logs s) @ drop (Suc i) (logs s)\<rparr>)"

text \<open>\<open>this.logs.push(log)\<close>: the interceptor augments the log and extracts its dynamic
  columns, the log is appended, and the listener runs.\<close>

definition logs_push :: "Shared \<Rightarrow> bool \<Rightarrow> Log \<Rightarrow> 'g IndexStore \<Rightarrow> 'g IndexStore" where
  "logs_push sh active log s =
     (let log' = augmentLog sh log;
          s1 = extractDynamicColumns log' s
      in logs_observer sh active (s1\<lparr>logs := logs s1 @ [log']\<rparr>))"

subsection \<open>Result status\<close>

definition setResultStatus :: "string \<Rightarrow> ResultStatus \<Rightarrow> 'g IndexStore \<Rightarrow> 'g IndexStore" where
  "setResultStatus resultId status s =
     s\<lparr>resultStatuses := (resultStatuses s)(resultId \<mapsto> status),
       posted := posted s @ [post_setResultStatus resultId status]\<rparr>"

definition getResultStatus :: "'g IndexStore \<Rightarrow> string \<Rightarrow> ResultStatus" where
  "getResultStatus s resultId =
     (case resultStatuses s resultId of None \<Rightarrow> Unchecked | Some status \<Rightarrow> status)"

subsection \<open>Messages from the host\<close>

text \<open>An added log of \<open>spliceLogs\<close>: \<open>added_log\<close> is the document that \<open>JSON.parse(text)\<close>, or
  the fetch of \<open>webviewUri\<close>, yields, and \<open>None\<close> when that throws.\<close>

record AddedLog =
  added_log :: "Log option"
  added_uri :: "string option"
  added_uriUpgraded :: "string option"

datatype CommandExtensionToPanel =
    cmd_select "jsvalue option"
  | cmd_spliceLogs "string list" "AddedLog list"
  | cmd_spliceResultsFixed "string list" "string list"
  | cmd_setBanner "string option"
  | cmd_basePathSet
  | cmd_loadResultStatuses "(string \<rightharpoonup> ResultStatus) option"
  | cmd_other string

text \<open>\<open>event.data\<close>: missing, a message of the development tools (it has a \<open>source\<close> or a
  \<open>type\<close>), or a command.\<close>

datatype EventData =
    NoData
  | Foreign
  | Command CommandExtensionToPanel

text \<open>An \<open>async\<close> function returns a promise: resolved, or rejected with what was thrown.
  The state that comes with a rejection is the state at the \<open>throw\<close>. The timer that
  \<open>basePathSet\<close> starts to put the old banner back is not part of the model.\<close>

datatype outcome = Resolved | Rejected error

fun js_truthy :: "jsvalue \<Rightarrow> bool" where
  "js_truthy JNull = False"
| "js_truthy (JBool b) = b"
| "js_truthy (JNum i) = (i \<noteq> 0)"
| "js_truthy (JStr str) = (str \<noteq> [])"
| "js_truthy v = True"

fun findIndex :: "('a \<Rightarrow> bool) \<Rightarrow> 'a list \<Rightarrow> nat option" where
  "findIndex P [] = None"
| "findIndex P (x # xs) = (if P x then Some 0 else map_option Suc (findIndex P xs))"

text \<open>The store of a tab; the tab \<open>Logs\<close> has none. Both stores share the selection.\<close>

fun tab_has_store :: "Tab \<Rightarrow> bool" where
  "tab_has_store Locations = True"
| "tab_has_store Rules = True"
| "tab_has_store Logs = False"

fun spliceLogs_removed ::
  "Shared \<Rightarrow> bool \<Rightarrow> string list \<Rightarrow> 'g IndexStore \<Rightarrow> 'g IndexStore" where
  "spliceLogs_removed sh active [] s = s"
| "spliceLogs_removed sh active (u # us) s =
     spliceLogs_removed sh active us
       (case findIndex (\<lambda>log. l_uri log = Some u) (logs s) of
          None \<Rightarrow> s
        | Some i \<Rightarrow> logs_splice sh active i s)"

fun spliceLogs_added ::
  "Shared \<Rightarrow> bool \<Rightarrow> AddedLog list \<Rightarrow> 'g IndexStore \<Rightarrow> outcome \<times> 'g IndexStore" where
  "spliceLogs_added sh active [] s = (Resolved, s)"
| "spliceLogs_added sh active (a # as) s =
     (case added_log a of
        None \<Rightarrow> (Rejected SyntaxError, s)
      | Some log \<Rightarrow>
          spliceLogs_added sh active as
            (logs_push sh active
               (log\<lparr>l_uri := added_uri a, l_uriUpgraded := added_uriUpgraded a\<rparr>) s))"

definition onMessage ::
  "Shared \<Rightarrow> bool \<Rightarrow> EventData \<Rightarrow> 'g IndexStore \<Rightarrow> outcome \<times> 'g IndexStore" where
  "onMessage sh active data s =
     (case data of
        NoData \<Rightarrow> (Resolved, s)
      | Foreign \<Rightarrow> (Resolved, s)
      | Command (cmd_select ident) \<Rightarrow>
          (case ident of
             None \<Rightarrow> (Resolved, selection_set sh active None s)
           | Some i \<Rightarrow>
               if \<not> js_truthy i then (Resolved, selection_set sh active None s)
               else (case findResult sh (logs s) i of
                       None \<Rightarrow> (Rejected (Error ''Unexpected: result undefined''), s)
                     | Some result \<Rightarrow>
                         (Resolved,
                          if tab_has_store (selectedTab s) then select sh active result s
                          else s)))
      | Command (cmd_spliceLogs removed added) \<Rightarrow>
          spliceLogs_added sh active added (spliceLogs_removed sh active removed s)
      | Command (cmd_spliceResultsFixed removed added) \<Rightarrow>
          (Resolved, s\<lparr>resultsFixed := fold remove1 removed (resultsFixed s) @ added\<rparr>)
      | Command (cmd_setBanner txt) \<Rightarrow>
          (Resolved, s\<lparr>banner := (case txt of None \<Rightarrow> [] | Some t \<Rightarrow> t)\<rparr>)
      | Command cmd_basePathSet \<Rightarrow>
          (Resolved, s\<lparr>banner := ''Base path updated. Paths should now resolve.''\<rparr>)
      | Command (cmd_loadResultStatuses statuses) \<Rightarrow>
          (Resolved,
           s\<lparr>resultStatuses := (case statuses of None \<Rightarrow> Map.empty | Some m \<Rightarrow> m)\<rparr>)
      | Command (cmd_other c) \<Rightarrow> (Resolved, s))"

section \<open>The table store of results\<close>

text \<open>Modelled from the spec: the class \<open>Column\<close> of \<open>tableStore.ts\<close>, which is not among the
  sources: a display name, a width, a function from a result to its display text and,
  optionally, one to a sortable number.\<close>

record Column =
  name :: string
  width :: nat
  toString :: "Result \<Rightarrow> string"
  toNumber :: "(Result \<Rightarrow> int) option"

record 'k ResultTableStore =
  groupName :: string
  groupBy :: "Result \<Rightarrow> 'k option"

definition resultTableStoreByLocation :: "string ResultTableStore" where
  "resultTableStoreByLocation = \<lparr>groupName = ''File'', groupBy = r_relativeUri\<rparr>"

definition resultTableStoreByRule :: "ReportingDescriptor ResultTableStore" where
  "resultTableStoreByRule = \<lparr>groupName = ''Rule'', groupBy = r_rule\<rparr>"

definition or_empty :: "string option \<Rightarrow> string" where
  "or_empty x = (case x of None \<Rightarrow> [] | Some str \<Rightarrow> str)"

definition or_emdash :: "string option \<Rightarrow> string" where
  "or_emdash x = (case x of None \<Rightarrow> emdash | Some str \<Rightarrow> str)"

definition region_startLine :: "Result \<Rightarrow> int option" where
  "region_startLine result =
     (case r_region result of None \<Rightarrow> None | Some rg \<Rightarrow> startLine rg)"

definition columnsPermanent :: "Column list" where
  "columnsPermanent = []"

definition columnsOptional :: "'g IndexStore \<Rightarrow> Column list" where
  "columnsOptional s =
     [\<lparr>name = ''Line'', width = 50,
        toString = (\<lambda>result. or_emdash (map_option Number_toString (region_startLine result))),
        toNumber = Some (\<lambda>result. case region_startLine result of None \<Rightarrow> 0 | Some n \<Rightarrow> n)\<rparr>,
      \<lparr>name = ''File'', width = 250,
        toString = (\<lambda>result. or_empty (r_relativeUri result)),
        toNumber = None\<rparr>,
      \<lparr>name = ''Status'', width = 100,
        toString = (\<lambda>result.
          let status = resultStatuses s (JSON_stringify (r_id result))
          in if status = Some True_positive then ''TP''
             else if status = Some False_positive then ''FP''
             else emdash),
        toNumber = None\<rparr>,
      \<lparr>name = ''Message'', width = 300,
        toString = (\<lambda>result. or_empty (r_message result)),
        toNumber = None\<rparr>,
      \<lparr>name = ''Baseline'', width = 100,
        toString = (\<lambda>result. or_empty (baselineState result)),
        toNumber = None\<rparr>,
      \<lparr>name = ''Suppression'', width = 100,
        toString = (\<lambda>result. or_empty (r_suppression result)),
        toNumber = None\<rparr>,
      \<lparr>name = ''Rule'', width = 220,
        toString = (\<lambda>result.
          or_emdash (case r_rule result of None \<Rightarrow> None | Some rule \<Rightarrow> rule_name rule)
          @ '' '' @ or_emdash (ruleId result)),
        toNumber = None\<rparr>]"

definition dynamicPropertyColumns :: "'g IndexStore \<Rightarrow> Column list" where
  "dynamicPropertyColumns s =
     map (\<lambda>key.
       \<lparr>name = key, width = 150,
        toString = (\<lambda>result.
          case (case properties result of None \<Rightarrow> None | Some ps \<Rightarrow> map_of ps key) of
            None \<Rightarrow> emdash
          | Some v \<Rightarrow> property_text v),
        toNumber = None\<rparr>)
       (dynamicColumns s)"

definition columns :: "'k ResultTableStore \<Rightarrow> 'g IndexStore \<Rightarrow> Column list" where
  "columns ts s = columnsPermanent @ columnsOptional s @ dynamicPropertyColumns s"

definition optionalColumnNames :: "'g IndexStore \<Rightarrow> string list" where
  "optionalColumnNames s =
     map fst (filter (\<lambda>(nm, state). truthy state) (Columns (filtersColumn s)))"

definition unorderedColumns :: "'k ResultTableStore \<Rightarrow> 'g IndexStore \<Rightarrow> Column list" where
  "unorderedColumns ts s =
     filter (\<lambda>col. name col \<noteq> groupName ts) columnsPermanent
     @ filter (\<lambda>col. name col \<in> set (optionalColumnNames s)) (columnsOptional s)
     @ filter (\<lambda>col. name col \<in> set (optionalColumnNames s)) (dynamicPropertyColumns s)"

text \<open>
  The two loops over the column order. A column object is told from another by its
  position in \<open>unorderedColumns\<close>, which stands for the identity that
  \<open>orderedColumns.includes(col)\<close> compares.
\<close>

definition orderColumns :: "string list \<Rightarrow> Column list \<Rightarrow> Column list" where
  "orderColumns order unordered =
     (let indexed = zip [0..<length unordered] unordered;
          named = concat (map (\<lambda>colName.
                    case find (\<lambda>(i, c). name c = colName) indexed of
                      None \<Rightarrow> []
                    | Some ic \<Rightarrow> [ic]) order);
          ordered = fold (\<lambda>ic acc. if fst ic \<in> set (map fst acc) then acc else acc @ [ic])
                      indexed named
      in map snd ordered)"

definition visibleColumns :: "'k ResultTableStore \<Rightarrow> 'g IndexStore \<Rightarrow> Column list" where
  "visibleColumns ts s =
     (if columnOrder s \<noteq> [] then orderColumns (columnOrder s) (unorderedColumns ts s)
      else unorderedColumns ts s)"

text \<open>The getter \<open>filter\<close>. \<open>Object.entries\<close> throws a \<open>TypeError\<close> on a category that is
  \<open>undefined\<close>.\<close>

definition mapToList :: "Visibility dict \<Rightarrow> string list" where
  "mapToList record =
     map (\<lambda>(label, v). toLowerCase label) (filter (\<lambda>(label, v). truthy v) record)"

definition filterKeywords :: "string \<Rightarrow> string list" where
  "filterKeywords kws = filter (\<lambda>part. part \<noteq> []) (split_ws [] (toLowerCase kws))"

definition isMatch :: "string \<Rightarrow> string list \<Rightarrow> bool" where
  "isMatch field kws = (kws = [] \<or> list_ex (\<lambda>keyword. includes_str field keyword) kws)"

definition filter_rts ::
  "'k ResultTableStore \<Rightarrow> 'g IndexStore \<Rightarrow> error + (Result \<Rightarrow> bool)" where
  "filter_rts ts s =
     (case (map_of (filtersRow s) ''Level'', map_of (filtersRow s) ''Baseline'',
            map_of (filtersRow s) ''Suppression'') of
        (Some lv, Some bl, Some su) \<Rightarrow>
          Inr (\<lambda>result.
            if or_empty (level result) \<notin> set (mapToList lv) then False
            else if or_empty (baselineState result) \<notin> set (mapToList bl) then False
            else if or_empty (r_suppression result) \<notin> set (mapToList su) then False
            else list_ex (\<lambda>col.
                   isMatch (toLowerCase (toString col result))
                     (filterKeywords (keywords_str s)))
                   (columns ts s))
      | _ \<Rightarrow> Inl TypeError)"

section \<open>Keyboard navigation of the table\<close>

text \<open>\<open>rows[i]\<close> is \<open>undefined\<close> outside of the array; \<open>rows.indexOf(row)\<close> is \<open>-1\<close> when the
  row, or \<open>undefined\<close>, is not in it. \<open>rows\<close> is \<open>store.rows\<close> of the table.\<close>

definition at_index :: "'a list \<Rightarrow> int \<Rightarrow> 'a option" where
  "at_index xs i = (if 0 \<le> i \<and> i < int (length xs) then Some (xs ! nat i) else None)"

definition indexOf :: "'a list \<Rightarrow> 'a option \<Rightarrow> int" where
  "indexOf xs x =
     (case x of
        None \<Rightarrow> - 1
      | Some y \<Rightarrow> (case findIndex (\<lambda>z. z = y) xs of None \<Rightarrow> - 1 | Some i \<Rightarrow> int i))"

definition nullish :: "'a option \<Rightarrow> 'a option \<Rightarrow> 'a option" where
  "nullish a b = (case a of None \<Rightarrow> b | Some x \<Rightarrow> Some x)"

definition onKeyDown ::
  "Shared \<Rightarrow> bool \<Rightarrow> string \<Rightarrow> 'g Row list \<Rightarrow> 'g IndexStore \<Rightarrow> 'g IndexStore" where
  "onKeyDown sh active key rows s =
     (let index = indexOf rows (selection s) in
      if key = ''ArrowUp'' then
        selection_set sh active
          (nullish (at_index rows (index - 1)) (nullish (at_index rows index) (at_index rows 0))) s
      else if key = ''ArrowDown'' then
        selection_set sh active (nullish (at_index rows (index + 1)) (at_index rows index)) s
      else if key = ''Escape'' then selection_set sh active None s
      else s)"

section \<open>Reachable states\<close>

text \<open>
  The states of the index store that the modelled operations reach from a constructed
  store: messages from the host, a change of a result status, a new column order (as
  \<open>moveColumn\<close> sets one), the clearing of the filters, a key pressed in the table, a click
  on a row or on a tab, and the default selection.
\<close>

inductive reachable :: "Shared \<Rightarrow> 'g IndexStore \<Rightarrow> bool" for sh :: Shared where
  constructed: "IndexStore_constructor sh state defaultSelection = Inr s \<Longrightarrow> reachable sh s"
| message: "reachable sh s \<Longrightarrow> reachable sh (snd (onMessage sh active data s))"
| status: "reachable sh s \<Longrightarrow> reachable sh (setResultStatus resultId status s)"
| column_order: "reachable sh s \<Longrightarrow> reachable sh (setColumnOrder order s)"
| clear_filters: "reachable sh s \<Longrightarrow> reachable sh (clearFilters s)"
| key_down: "reachable sh s \<Longrightarrow> reachable sh (onKeyDown sh active key rows s)"
| row_click: "reachable sh s \<Longrightarrow> reachable sh (selection_set sh active row s)"
| tab_click: "reachable sh s \<Longrightarrow> reachable sh (s\<lparr>selectedTab := tab\<rparr>)"
| default_selection: "reachable sh s \<Longrightarrow> reachable sh (defaultSelection_when sh active rows s)"

definition dynamicColumns_ok :: "'g IndexStore \<Rightarrow> bool" where
  "dynamicColumns_ok s = (distinct (dynamicColumns s) \<and> ''tags'' \<notin> set (dynamicColumns s))"

fun is_select :: "MessageToHost \<Rightarrow> bool" where
  "is_select (post_select logUri u uriBase rg ident) = True"
| "is_select m = False"

section \<open>Concrete inputs\<close>

text \<open>
  An instance of the parameters and a small log, on which the model is evaluated: default
  filters, an augmentation that leaves the log as it is, results found by their identity.
\<close>

definition example_shared :: Shared where
  "example_shared = \<lparr>
     shared_filtersRow =
       [(''Level'', [(''Error'', visible), (''Warning'', visible), (''Note'', visible),
                     (''None'', visible)]),
        (''Baseline'', [(''New'', visible), (''Unchanged'', visible), (''Updated'', visible),
                        (''Absent'', hidden)]),
        (''Suppression'', [(''Not Suppressed'', visible), (''Suppressed'', hidden)])],
     shared_filtersColumn =
       \<lparr>Columns = [(''Line'', visible), (''File'', visible), (''Status'', visible),
                   (''Message'', visible), (''Baseline'', hidden), (''Suppression'', hidden),
                   (''Rule'', hidden)]\<rparr>,
     augmentLog = (\<lambda>log. log),
     findResult = (\<lambda>ls ident. find (\<lambda>r. r_id r = ident) (concat (map log_results ls))),
     parseArtifactLocation =
       (\<lambda>result al. (case al of None \<Rightarrow> None | Some a \<Rightarrow> al_uri a, None, None))\<rparr>"

text \<open>A persisted blob that holds the defaults, and one written with fewer values.\<close>

definition example_state :: "Visibility dict dict dict" where
  "example_state =
     [(''filtersRow'', shared_filtersRow example_shared),
      (''filtersColumn'', [(''Columns'', Columns (shared_filtersColumn example_shared))])]"

definition stale_state :: "Visibility dict dict dict" where
  "stale_state =
     [(''filtersRow'', [(''Level'', [(''Error'', visible)]),
                        (''Baseline'', [(''New'', visible)]),
                        (''Suppression'', [(''Not Suppressed'', visible)])]),
      (''filtersColumn'', [(''Columns'', [(''Line'', visible)])])]"

definition example_result :: Result where
  "example_result = \<lparr>
     level = Some ''error'',
     baselineState = Some ''new'',
     ruleId = Some ''R1'',
     properties = Some [(''File'', JStr ''generated''), (''tags'', JArr [JStr ''security'']),
                        (''cwe'', JNum 79)],
     locations = Some [\<lparr>physicalLocation = Some \<lparr>artifactLocation =
                    Some \<lparr>al_uri = Some ''src/a.c'', al_uriBaseId = None\<rparr>,
                  region = Some \<lparr>startLine = Some 12\<rparr>\<rparr>\<rparr>],
     r_id = JArr [JStr ''file:///log.sarif'', JNum 0, JNum 0],
     r_uri = Some ''file:///src/a.c'',
     r_relativeUri = Some ''src/a.c'',
     r_region = Some \<lparr>startLine = Some 12\<rparr>,
     r_message = Some ''Unchecked buffer'',
     r_suppression = Some ''not suppressed'',
     r_rule = Some \<lparr>rule_name = Some ''FooBar''\<rparr>,
     r_log_uri = Some ''file:///log.sarif''\<rparr>"

definition example_log :: Log where
  "example_log = \<lparr>runs = Some [\<lparr>results = Some [example_result]\<rparr>],
                   l_uri = None, l_uriUpgraded = None\<rparr>"

definition example_added :: AddedLog where
  "example_added = \<lparr>added_log = Some example_log, added_uri = Some ''file:///log.sarif'',
                     added_uriUpgraded = None\<rparr>"

definition example_store :: "string IndexStore" where
  "example_store = projr (IndexStore_constructor example_shared example_state False)"

text \<open>The store after the host has sent the example log.\<close>

definition example_loaded :: "string IndexStore" where
  "example_loaded =
     snd (onMessage example_shared False (Command (cmd_spliceLogs [] [example_added]))
            example_store)"

text \<open>The loaded store with the example result selected by the user.\<close>

definition example_selected :: "string IndexStore" where
  "example_selected =
     selection_set example_shared True (Some (RowItem example_result)) example_loaded"

text \<open>The loaded store with the tab \<open>Logs\<close> in front.\<close>

definition example_logs_tab :: "string IndexStore" where
  "example_logs_tab = example_loaded\<lparr>selectedTab := Logs\<rparr>"

text \<open>A log whose only result has the one property \<open>constructor\<close>, and the store after the
  host has sent it.\<close>

definition prototype_key_added :: AddedLog where
  "prototype_key_added = \<lparr>
     added_log = Some \<lparr>
       runs = Some [\<lparr>results = Some
         [example_result\<lparr>properties := Some [(''constructor'', JStr ''generated'')]\<rparr>]\<rparr>],
       l_uri = None, l_uriUpgraded = None\<rparr>,
     added_uri = Some ''file:///keys.sarif'',
     added_uriUpgraded = None\<rparr>"

definition prototype_key_loaded :: "string IndexStore" where
  "prototype_key_loaded =
     snd (onMessage example_shared False (Command (cmd_spliceLogs [] [prototype_key_added]))
            example_store)"

text \<open>The rows of the example log, grouped by file.\<close>

definition example_rows :: "string Row list" where
  "example_rows = [RowGroup ''src/a.c'' True [example_result], RowItem example_result]"

section \<open>Facts about strings and dictionaries\<close>

lemma startsWith_iff: "startsWith s k \<longleftrightarrow> (\<exists>q. s = k @ q)"
  by (induction s k rule: startsWith.induct) auto

lemma includes_str_iff: "includes_str s k \<longleftrightarrow> (\<exists>p q. s = p @ k @ q)"
proof (induction s)
  case Nil
  then show ?case by auto
next
  case (Cons c cs)
  show ?case
  proof
    assume "includes_str (c # cs) k"
    then consider "startsWith (c # cs) k" | "includes_str cs k" by auto
    then show "\<exists>p q. c # cs = p @ k @ q"
    proof cases
      case 1
      then obtain q where "c # cs = k @ q" by (auto simp: startsWith_iff)
      then have "c # cs = [] @ k @ q" by simp
      then show ?thesis by blast
    next
      case 2
      then obtain p q where "cs = p @ k @ q" using Cons.IH by auto
      then have "c # cs = (c # p) @ k @ q" by simp
      then show ?thesis by blast
    qed
  next
    assume "\<exists>p q. c # cs = p @ k @ q"
    then obtain p q where pq: "c # cs = p @ k @ q" by auto
    show "includes_str (c # cs) k"
    proof (cases p)
      case Nil
      then have "startsWith (c # cs) k" using pq by (auto simp: startsWith_iff)
      then show ?thesis by simp
    next
      case (Cons a p')
      then have "cs = p' @ k @ q" using pq by simp
      then have "includes_str cs k" using Cons.IH by blast
      then show ?thesis by simp
    qed
  qed
qed

lemma split_ws_pieces:
  "\<forall>c \<in> set cur. \<not> isSpace c \<Longrightarrow> piece \<in> set (split_ws cur s) \<Longrightarrow> c \<in> set piece
     \<Longrightarrow> \<not> isSpace c"
  by (induction cur s rule: split_ws.induct) (auto split: if_splits)

text \<open>A keyword token is not empty and holds no whitespace.\<close>

lemma filterKeywords_token:
  "keyword \<in> set (filterKeywords kws) \<Longrightarrow> keyword \<noteq> [] \<and> (\<forall>c \<in> set keyword. \<not> isSpace c)"
  using split_ws_pieces [of "[]" keyword "toLowerCase kws"]
  by (auto simp: filterKeywords_def)

text \<open>The tokens, one after the other, are the lower-cased keyword text without its
  whitespace.\<close>

lemma filter_dropWhile_not:
  "filter (\<lambda>c. \<not> P c) (dropWhile P cs) = filter (\<lambda>c. \<not> P c) cs"
  by (induction cs) auto

lemma concat_split_ws:
  "concat (split_ws cur s) = rev cur @ filter (\<lambda>c. \<not> isSpace c) s"
  by (induction cur s rule: split_ws.induct) (auto simp: filter_dropWhile_not)

lemma concat_filter_nonempty: "concat (filter (\<lambda>part. part \<noteq> []) xs) = concat xs"
  by (induction xs) auto

lemma concat_filterKeywords:
  "concat (filterKeywords kws) = filter (\<lambda>c. \<not> isSpace c) (toLowerCase kws)"
  by (simp add: filterKeywords_def concat_filter_nonempty concat_split_ws)

lemma truthy_iff: "truthy v = (v = visible)"
  by (cases v) auto

lemma mapToList_iff:
  "x \<in> set (mapToList d) \<longleftrightarrow> (\<exists>label. (label, visible) \<in> set d \<and> x = toLowerCase label)"
  by (force simp: mapToList_def truthy_iff)

lemma map_of_spread:
  "map_of (spread a b) k = (case map_of (rev b) k of None \<Rightarrow> map_of a k | Some v \<Rightarrow> Some v)"
  unfolding spread_def
  by (induction b arbitrary: a)
     (auto simp: update_conv' map_add_def split: option.splits)

lemma spread_keeps_default:
  "map_of a k \<noteq> None \<Longrightarrow> map_of (spread a b) k \<noteq> None"
  by (simp add: map_of_spread split: option.splits)

lemma spread_takes_persisted:
  assumes "distinct (map fst b)" and "map_of b k = Some v"
  shows "map_of (spread a b) k = Some v"
proof -
  have "distinct (map fst (rev b))" using assms(1) by (simp add: rev_map [symmetric])
  moreover have "(k, v) \<in> set (rev b)" using assms(2) by (auto dest: map_of_SomeD)
  ultimately have "map_of (rev b) k = Some v" by (simp only: map_of_eq_Some_iff)
  then show ?thesis by (simp add: map_of_spread)
qed

lemma find_Some_in_set: "find P xs = Some x \<Longrightarrow> x \<in> set xs"
  by (induction xs) (auto split: if_splits)

lemma distinct_count_list_1: "distinct xs \<Longrightarrow> x \<in> set xs \<Longrightarrow> count_list xs x = 1"
  by (induction xs) (auto simp: count_list_0_iff)

lemma sum_Inr_projr: "c = Inr x \<Longrightarrow> c = Inr (projr c)"
  by simp

section \<open>Facts about the selection\<close>

lemma postSelectArtifact_fields [simp]:
  "selection (postSelectArtifact sh active result ploc s) = selection s"
  "logs (postSelectArtifact sh active result ploc s) = logs s"
  "dynamicColumns (postSelectArtifact sh active result ploc s) = dynamicColumns s"
  "filtersColumn (postSelectArtifact sh active result ploc s) = filtersColumn s"
  "filtersRow (postSelectArtifact sh active result ploc s) = filtersRow s"
  by (auto simp: postSelectArtifact_def split: option.splits prod.splits)

lemma autorun_fields [simp]:
  "selection (autorun sh active s) = selection s"
  "logs (autorun sh active s) = logs s"
  "dynamicColumns (autorun sh active s) = dynamicColumns s"
  "filtersColumn (autorun sh active s) = filtersColumn s"
  "filtersRow (autorun sh active s) = filtersRow s"
  by (auto simp: autorun_def split: option.splits Row.splits)

lemma selection_set_fields [simp]:
  "selection (selection_set sh active row s) = row"
  "logs (selection_set sh active row s) = logs s"
  "dynamicColumns (selection_set sh active row s) = dynamicColumns s"
  "filtersColumn (selection_set sh active row s) = filtersColumn s"
  "filtersRow (selection_set sh active row s) = filtersRow s"
  by (auto simp: selection_set_def)

lemma selection_set_inactive: "posted (selection_set sh False row s) = posted s"
  by (auto simp: selection_set_def autorun_def postSelectArtifact_def
           split: option.splits Row.splits)

lemma at_index_Cons_0 [simp]: "at_index (x # xs) 0 = Some x"
  by (simp add: at_index_def)

lemma at_index_neg [simp]: "i < 0 \<Longrightarrow> at_index xs i = None"
  by (simp add: at_index_def)

section \<open>Facts about the list of logs\<close>

lemma logs_push_nonempty: "logs (logs_push sh active log s) \<noteq> []"
  by (simp add: logs_push_def logs_observer_def Let_def)

lemma spliceLogs_removed_inv:
  "(logs s = [] \<longrightarrow> selection s = None) \<Longrightarrow>
   (logs (spliceLogs_removed sh active us s) = [] \<longrightarrow>
      selection (spliceLogs_removed sh active us s) = None)"
proof (induction us arbitrary: s)
  case Nil
  then show ?case by simp
next
  case (Cons u us)
  show ?case
    unfolding spliceLogs_removed.simps
    by (rule Cons.IH)
       (use Cons.prems in \<open>auto simp: logs_splice_def logs_observer_def split: option.splits\<close>)
qed

lemma spliceLogs_added_inv:
  "(logs s = [] \<longrightarrow> selection s = None) \<Longrightarrow>
   (logs (snd (spliceLogs_added sh active as s)) = [] \<longrightarrow>
      selection (snd (spliceLogs_added sh active as s)) = None)"
proof (induction as arbitrary: s)
  case Nil
  then show ?case by simp
next
  case (Cons a as)
  show ?case
  proof (cases "added_log a")
    case None
    then show ?thesis using Cons.prems by simp
  next
    case (Some log)
    show ?thesis
      unfolding spliceLogs_added.simps Some option.case
      by (rule Cons.IH) (simp add: logs_push_nonempty)
  qed
qed

section \<open>Facts about the dynamic columns\<close>

lemma fold_Set_add_set: "set (fold Set_add ks acc) = set acc \<union> set ks"
  by (induction ks arbitrary: acc) (auto simp: Set_add_def)

lemma fold_Set_add_distinct: "distinct acc \<Longrightarrow> distinct (fold Set_add ks acc)"
  by (induction ks arbitrary: acc) (auto simp: Set_add_def)

lemma fold_Set_add_absorb: "set ks \<subseteq> set acc \<Longrightarrow> fold Set_add ks acc = acc"
  by (induction ks arbitrary: acc) (auto simp: Set_add_def)

lemma propertyKeys_distinct: "distinct (propertyKeys log)"
  by (simp add: propertyKeys_def fold_Set_add_distinct)

lemma result_propertyKeys_set:
  "set (result_propertyKeys result) =
     {key. key \<noteq> ''tags'' \<and> (\<exists>ps. properties result = Some ps \<and> key \<in> fst ` set ps)}"
  by (cases "properties result") (auto simp: result_propertyKeys_def)

text \<open>The keys that a log offers: every property key of one of its results, but \<open>tags\<close>.\<close>

lemma propertyKeys_set:
  "set (propertyKeys log) =
     {key. key \<noteq> ''tags'' \<and>
        (\<exists>result ps. result \<in> set (log_results log) \<and> properties result = Some ps
           \<and> key \<in> fst ` set ps)}"
  unfolding propertyKeys_def fold_Set_add_set set_concat set_map
  by (auto simp: result_propertyKeys_set)

lemma Columns_set_dynamicColumns [simp]:
  "dynamicColumns (Columns_set key v s) = dynamicColumns s"
  by (simp add: Columns_set_def setState_def)

lemma Columns_set_lookup:
  "map_of (Columns (filtersColumn (Columns_set key v s))) k =
     (if k = key then Some v else map_of (Columns (filtersColumn s)) k)"
  by (simp add: Columns_set_def setState_def update_conv')

lemma addDynamicColumn_dynamicColumns:
  "dynamicColumns (addDynamicColumn key s) = Set_add key (dynamicColumns s)"
  by (simp add: addDynamicColumn_def Set_add_def Let_def)

lemma addDynamicColumn_lookup:
  "map_of (Columns (filtersColumn (addDynamicColumn key s))) k =
     (if k = key \<and> key \<notin> set (dynamicColumns s)
         \<and> \<not> Columns_truthy (Columns (filtersColumn s)) k
      then Some hidden else map_of (Columns (filtersColumn s)) k)"
  by (auto simp: addDynamicColumn_def Let_def Columns_set_lookup)

lemma addDynamicColumn_truthy:
  "k \<noteq> key \<Longrightarrow>
   Columns_truthy (Columns (filtersColumn (addDynamicColumn key s))) k
     = Columns_truthy (Columns (filtersColumn s)) k"
  by (simp add: Columns_truthy_def addDynamicColumn_lookup)

lemma fold_addDynamicColumn_dynamicColumns:
  "dynamicColumns (fold addDynamicColumn ks s) = fold Set_add ks (dynamicColumns s)"
  by (induction ks arbitrary: s) (simp_all add: addDynamicColumn_dynamicColumns)

lemma fold_addDynamicColumn_lookup:
  "map_of (Columns (filtersColumn (fold addDynamicColumn ks s))) k =
     (if k \<in> set ks \<and> k \<notin> set (dynamicColumns s)
         \<and> \<not> Columns_truthy (Columns (filtersColumn s)) k
      then Some hidden else map_of (Columns (filtersColumn s)) k)"
proof (induction ks arbitrary: s)
  case Nil
  then show ?case by simp
next
  case (Cons a ks)
  show ?case
  proof (cases "a = k")
    case True
    then show ?thesis
      by (auto simp: Cons.IH addDynamicColumn_lookup addDynamicColumn_dynamicColumns Set_add_def)
  next
    case False
    then show ?thesis
      by (auto simp: Cons.IH addDynamicColumn_lookup addDynamicColumn_dynamicColumns Set_add_def
            addDynamicColumn_truthy)
  qed
qed

lemma extractDynamicColumns_dynamicColumns:
  "dynamicColumns (extractDynamicColumns log s) = fold Set_add (propertyKeys log) (dynamicColumns s)"
  by (simp add: extractDynamicColumns_def fold_addDynamicColumn_dynamicColumns)

lemma extractDynamicColumns_ok:
  "dynamicColumns_ok s \<Longrightarrow> dynamicColumns_ok (extractDynamicColumns log s)"
  by (auto simp: dynamicColumns_ok_def extractDynamicColumns_dynamicColumns
        fold_Set_add_distinct fold_Set_add_set propertyKeys_set)

lemma logs_observer_fields [simp]:
  "dynamicColumns (logs_observer sh active s) = dynamicColumns s"
  "filtersColumn (logs_observer sh active s) = filtersColumn s"
  by (simp_all add: logs_observer_def)

lemma logs_push_dynamicColumns:
  "dynamicColumns (logs_push sh active log s) =
     dynamicColumns (extractDynamicColumns (augmentLog sh log) s)"
  by (simp add: logs_push_def Let_def)

lemma logs_push_filtersColumn:
  "filtersColumn (logs_push sh active log s) =
     filtersColumn (extractDynamicColumns (augmentLog sh log) s)"
  by (simp add: logs_push_def Let_def)

lemma logs_splice_dynamicColumns [simp]:
  "dynamicColumns (logs_splice sh active i s) = dynamicColumns s"
  by (simp add: logs_splice_def)

lemma spliceLogs_removed_dynamicColumns [simp]:
  "dynamicColumns (spliceLogs_removed sh active us s) = dynamicColumns s"
  by (induction us arbitrary: s) (auto split: option.splits)

lemma spliceLogs_added_ok:
  "dynamicColumns_ok s \<Longrightarrow> dynamicColumns_ok (snd (spliceLogs_added sh active as s))"
proof (induction as arbitrary: s)
  case Nil
  then show ?case by simp
next
  case (Cons a as)
  show ?case
  proof (cases "added_log a")
    case None
    then show ?thesis using Cons.prems by simp
  next
    case (Some log)
    have "dynamicColumns_ok (logs_push sh active
            (log\<lparr>l_uri := added_uri a, l_uriUpgraded := added_uriUpgraded a\<rparr>) s)"
      using extractDynamicColumns_ok [OF Cons.prems]
      by (simp add: dynamicColumns_ok_def logs_push_dynamicColumns)
    then show ?thesis
      unfolding spliceLogs_added.simps Some option.case by (rule Cons.IH)
  qed
qed

lemma onMessage_ok:
  "dynamicColumns_ok s \<Longrightarrow> dynamicColumns_ok (snd (onMessage sh active data s))"
proof (cases data)
  case (Command c)
  assume ok: "dynamicColumns_ok s"
  show ?thesis
  proof (cases c)
    case (cmd_spliceLogs removed added)
    have "dynamicColumns_ok (spliceLogs_removed sh active removed s)"
      using ok by (simp add: dynamicColumns_ok_def)
    then show ?thesis
      unfolding Command cmd_spliceLogs onMessage_def EventData.case CommandExtensionToPanel.case
      by (rule spliceLogs_added_ok)
  qed (use ok in \<open>auto simp: Command onMessage_def dynamicColumns_ok_def select_def
                    split: option.splits\<close>)
qed (simp_all add: onMessage_def)

lemma filtersRow_set_dynamicColumns [simp]:
  "dynamicColumns (filtersRow_set column val v s) = dynamicColumns s"
  by (simp add: filtersRow_set_def setState_def Let_def split: option.splits)

lemma fold_filtersRow_set_dynamicColumns [simp]:
  "dynamicColumns (fold (\<lambda>(val, v). filtersRow_set column val visible) category s)
     = dynamicColumns s"
  by (induction category arbitrary: s) (auto split: prod.splits)

lemma fold_category_dynamicColumns:
  "dynamicColumns
     (fold (\<lambda>(column, record). fold (\<lambda>(val, v). filtersRow_set column val visible) record)
        categories s)
     = dynamicColumns s"
  by (induction categories arbitrary: s) (auto split: prod.splits)

lemma clearFilters_dynamicColumns [simp]: "dynamicColumns (clearFilters s) = dynamicColumns s"
  by (simp add: clearFilters_def fold_category_dynamicColumns)

text \<open>In every reachable state the dynamic columns are pairwise distinct, and none is
  \<open>tags\<close>.\<close>

lemma reachable_dynamicColumns_ok: "reachable sh s \<Longrightarrow> dynamicColumns_ok s"
proof (induction rule: reachable.induct)
  case (constructed state defaultSelection s)
  then show ?case
    by (auto simp: IndexStore_constructor_def dynamicColumns_ok_def split: option.splits if_splits)
next
  case (message s active data)
  show ?case using message.IH by (rule onMessage_ok)
qed (auto simp: dynamicColumns_ok_def setResultStatus_def setColumnOrder_def onKeyDown_def
       defaultSelection_when_def Let_def)

section \<open>Facts about the columns\<close>

lemma columns_nonempty: "columns ts s \<noteq> []"
  by (simp add: columns_def columnsOptional_def)

lemma optionalColumnNames_iff:
  "nm \<in> set (optionalColumnNames s) \<longleftrightarrow> (nm, visible) \<in> set (Columns (filtersColumn s))"
  by (force simp: optionalColumnNames_def truthy_iff)

lemma unorderedColumns_set:
  "set (unorderedColumns ts s) =
     {col \<in> set (columns ts s). (name col, visible) \<in> set (Columns (filtersColumn s))}"
  by (auto simp: unorderedColumns_def columns_def columnsPermanent_def optionalColumnNames_iff)

lemma fold_push_absent_set:
  assumes "distinct (map fst ixs)" and "set acc \<subseteq> set ixs" and "set xs \<subseteq> set ixs"
  shows "set (fold (\<lambda>ic acc. if fst ic \<in> set (map fst acc) then acc else acc @ [ic]) xs acc)
           = set acc \<union> set xs"
  using assms(2,3)
proof (induction xs arbitrary: acc)
  case Nil
  then show ?case by simp
next
  case (Cons x xs)
  have x_in: "x \<in> set ixs" using Cons.prems by simp
  show ?case
  proof (cases "fst x \<in> set (map fst acc)")
    case True
    then obtain y where y: "y \<in> set acc" "fst y = fst x" by auto
    then have "y \<in> set ixs" using Cons.prems by auto
    then have "y = x"
      using x_in y(2) assms(1) by (metis eq_key_imp_eq_value prod.collapse)
    then have "x \<in> set acc" using y(1) by simp
    then show ?thesis using True Cons.IH [of acc] Cons.prems by auto
  next
    case False
    then show ?thesis using Cons.IH [of "acc @ [x]"] Cons.prems by auto
  qed
qed

lemma orderColumns_set: "set (orderColumns order unordered) = set unordered"
proof -
  let ?ixs = "zip [0..<length unordered] unordered"
  let ?named = "concat (map (\<lambda>colName.
                    case find (\<lambda>(i, c). name c = colName) ?ixs of
                      None \<Rightarrow> []
                    | Some ic \<Rightarrow> [ic]) order)"
  have d: "distinct (map fst ?ixs)" by simp
  have sub: "set ?named \<subseteq> set ?ixs"
    by (auto split: option.splits dest: find_Some_in_set [OF sym])
  have "set (fold (\<lambda>ic acc. if fst ic \<in> set (map fst acc) then acc else acc @ [ic]) ?ixs ?named)
          = set ?named \<union> set ?ixs"
    by (rule fold_push_absent_set [OF d sub]) simp
  then have "set (orderColumns order unordered) = snd ` set ?ixs"
    using sub unfolding orderColumns_def Let_def set_map by (simp add: Un_absorb1)
  also have "\<dots> = set unordered"
    by (metis diff_zero length_upt map_snd_zip set_map)
  finally show ?thesis .
qed

text \<open>The visible columns are the columns whose flag is set, whatever the store groups
  by and whatever the column order.\<close>

lemma visibleColumns_set:
  "set (visibleColumns ts s) =
     {col \<in> set (columns ts s). (name col, visible) \<in> set (Columns (filtersColumn s))}"
  by (simp add: visibleColumns_def orderColumns_set unorderedColumns_set)

section \<open>Facts about the concrete inputs\<close>

lemma example_store_constructed:
  "IndexStore_constructor example_shared example_state False = Inr example_store"
  unfolding example_store_def
  by (rule sum_Inr_projr)
     (simp add: IndexStore_constructor_def example_state_def example_shared_def)

lemma example_store_reachable: "reachable example_shared example_store"
  using example_store_constructed by (rule reachable.constructed)

lemma example_loaded_reachable: "reachable example_shared example_loaded"
  unfolding example_loaded_def using example_store_reachable by (rule reachable.message)

section \<open>The filter of the table store\<close>

text \<open>
  Claim C1, as the code has it. When the three row-filter categories exist, the getter
  \<open>filter\<close> returns a predicate, and the predicate accepts a result if and only if its
  level, its baseline state and its suppression state (the empty string when absent) are
  each the lower-cased label of an entry that is set to visible in their category, and,
  when the keyword text has at least one token, some token occurs in the lower-cased text
  that some column of the store renders for the result. The columns are all the columns
  of the store, built in and dynamic: their visibility is not looked at. With no token
  the keyword clause holds.
\<close>

theorem filter_accepts_iff:
  assumes "map_of (filtersRow s) ''Level'' = Some lv"
    and "map_of (filtersRow s) ''Baseline'' = Some bl"
    and "map_of (filtersRow s) ''Suppression'' = Some su"
  shows "\<exists>f. filter_rts ts s = Inr f \<and> (\<forall>result. f result \<longleftrightarrow>
      (\<exists>label. (label, visible) \<in> set lv \<and> or_empty (level result) = toLowerCase label)
    \<and> (\<exists>label. (label, visible) \<in> set bl \<and> or_empty (baselineState result) = toLowerCase label)
    \<and> (\<exists>label. (label, visible) \<in> set su \<and> or_empty (r_suppression result) = toLowerCase label)
    \<and> (filterKeywords (keywords_str s) = []
        \<or> (\<exists>col \<in> set (columns ts s). \<exists>keyword \<in> set (filterKeywords (keywords_str s)).
              \<exists>p q. toLowerCase (toString col result) = p @ keyword @ q)))"
proof -
  have ne: "\<exists>col. col \<in> set (columns ts s)"
    using columns_nonempty [of ts s] by (cases "columns ts s") auto
  show ?thesis
    unfolding filter_rts_def assms
    using ne
    by (auto simp: mapToList_iff isMatch_def list_ex_iff includes_str_iff)
qed

text \<open>The theorem of claim C1 on the example store with the keyword text \<open>foo\<close>: the three
  categories exist, and the filter is a predicate.\<close>

theorem filter_accepts_iff_witness:
  "map_of (filtersRow (example_store\<lparr>keywords_str := ''foo''\<rparr>)) ''Level''
     = Some [(''Error'', visible), (''Warning'', visible), (''Note'', visible), (''None'', visible)]
   \<and> map_of (filtersRow (example_store\<lparr>keywords_str := ''foo''\<rparr>)) ''Baseline''
     = Some [(''New'', visible), (''Unchanged'', visible), (''Updated'', visible), (''Absent'', hidden)]
   \<and> map_of (filtersRow (example_store\<lparr>keywords_str := ''foo''\<rparr>)) ''Suppression''
     = Some [(''Not Suppressed'', visible), (''Suppressed'', hidden)]
   \<and> (\<exists>f. filter_rts resultTableStoreByLocation (example_store\<lparr>keywords_str := ''foo''\<rparr>) = Inr f
        \<and> f example_result)"
proof -
  let ?s = "example_store\<lparr>keywords_str := ''foo''\<rparr>"
  have h1: "map_of (filtersRow ?s) ''Level''
     = Some [(''Error'', visible), (''Warning'', visible), (''Note'', visible), (''None'', visible)]"
    by code_simp
  have h2: "map_of (filtersRow ?s) ''Baseline''
     = Some [(''New'', visible), (''Unchanged'', visible), (''Updated'', visible), (''Absent'', hidden)]"
    by code_simp
  have h3: "map_of (filtersRow ?s) ''Suppression''
     = Some [(''Not Suppressed'', visible), (''Suppressed'', hidden)]"
    by code_simp
  obtain f where f: "filter_rts resultTableStoreByLocation ?s = Inr f"
    using filter_accepts_iff [OF h1 h2 h3, of resultTableStoreByLocation] by blast
  have "(case filter_rts resultTableStoreByLocation ?s of Inr g \<Rightarrow> g example_result
         | Inl e \<Rightarrow> False)"
    by code_simp
  then have "f example_result" by (simp add: f)
  then show ?thesis using h1 h2 h3 f by blast
qed

text \<open>
  Claim C1 as it is stated fails. The column \<open>Rule\<close> of the example store is hidden, and it
  is the only column whose text for the example result holds the token \<open>foo\<close> (its rule is
  named \<open>FooBar\<close>); the filter accepts the result, while no visible column matches.
\<close>

theorem filter_hidden_column_counterexample:
  "(case filter_rts resultTableStoreByLocation (example_store\<lparr>keywords_str := ''foo''\<rparr>) of
      Inr f \<Rightarrow> f example_result
    | Inl e \<Rightarrow> False)
   \<and> filterKeywords (keywords_str (example_store\<lparr>keywords_str := ''foo''\<rparr>)) = [''foo'']
   \<and> map name (visibleColumns resultTableStoreByLocation
                 (example_store\<lparr>keywords_str := ''foo''\<rparr>))
       = [''Line'', ''File'', ''Status'', ''Message'']
   \<and> \<not> list_ex (\<lambda>col. includes_str (toLowerCase (toString col example_result)) ''foo'')
         (visibleColumns resultTableStoreByLocation (example_store\<lparr>keywords_str := ''foo''\<rparr>))"
  by code_simp

section \<open>The filters of a constructed store\<close>

text \<open>
  Claim C2, as the code has it. After the construction of the store from a persisted
  blob, the row filters are the row filters of the blob, as they are: each of the
  categories \<open>Level\<close>, \<open>Baseline\<close> and \<open>Suppression\<close> exists (the constructor throws on a blob
  without one), with the values that the blob has. It is the map of the column
  visibilities that is merged with the defaults: every default column has an entry, and
  an entry of the blob overrides the default.
\<close>

theorem constructor_filters:
  assumes "IndexStore_constructor sh state defaultSelection = Inr s"
  shows "map_of state ''filtersRow'' = Some (filtersRow s)
    \<and> (\<forall>category \<in> {''Level'', ''Baseline'', ''Suppression''}.
          map_of (filtersRow s) category \<noteq> None)
    \<and> (\<forall>column. map_of (Columns (shared_filtersColumn sh)) column \<noteq> None
          \<longrightarrow> map_of (Columns (filtersColumn s)) column \<noteq> None)
    \<and> (\<forall>fc persisted column v.
          map_of state ''filtersColumn'' = Some fc \<and> map_of fc ''Columns'' = Some persisted
          \<and> distinct (map fst persisted) \<and> map_of persisted column = Some v
          \<longrightarrow> map_of (Columns (filtersColumn s)) column = Some v)"
proof -
  obtain fr where fr: "map_of state ''filtersRow'' = Some fr"
    using assms by (auto simp: IndexStore_constructor_def split: option.splits)
  have cats: "map_of fr ''Level'' \<noteq> None \<and> map_of fr ''Baseline'' \<noteq> None
      \<and> map_of fr ''Suppression'' \<noteq> None"
    using assms fr by (auto simp: IndexStore_constructor_def split: if_splits)
  have rows: "filtersRow s = fr"
    using assms fr by (auto simp: IndexStore_constructor_def split: if_splits)
  have cols: "Columns (filtersColumn s) =
      spread (Columns (shared_filtersColumn sh))
        (case map_of state ''filtersColumn'' of
           None \<Rightarrow> []
         | Some fc \<Rightarrow> (case map_of fc ''Columns'' of None \<Rightarrow> [] | Some c \<Rightarrow> c))"
    using assms fr by (auto simp: IndexStore_constructor_def split: if_splits)
  have merged: "\<forall>column. map_of (Columns (shared_filtersColumn sh)) column \<noteq> None
          \<longrightarrow> map_of (Columns (filtersColumn s)) column \<noteq> None"
    unfolding cols by (simp add: spread_keeps_default)
  have override: "\<forall>fc persisted column v.
          map_of state ''filtersColumn'' = Some fc \<and> map_of fc ''Columns'' = Some persisted
          \<and> distinct (map fst persisted) \<and> map_of persisted column = Some v
          \<longrightarrow> map_of (Columns (filtersColumn s)) column = Some v"
    unfolding cols by (auto simp: spread_takes_persisted)
  show ?thesis
    using fr cats rows merged override by simp
qed

text \<open>The theorem of claim C2 on the example blob.\<close>

theorem constructor_filters_witness:
  "IndexStore_constructor example_shared example_state False = Inr example_store
   \<and> map_of example_state ''filtersRow'' = Some (filtersRow example_store)
   \<and> map_of (filtersRow example_store) ''Level'' \<noteq> None
   \<and> map_of (filtersRow example_store) ''Baseline'' \<noteq> None
   \<and> map_of (filtersRow example_store) ''Suppression'' \<noteq> None
   \<and> map_of (Columns (shared_filtersColumn example_shared)) ''Rule'' \<noteq> None
   \<and> map_of (Columns (filtersColumn example_store)) ''Rule'' \<noteq> None"
proof -
  have a: "map_of (Columns (shared_filtersColumn example_shared)) ''Rule'' \<noteq> None"
    by code_simp
  show ?thesis
    using a example_store_constructed constructor_filters [OF example_store_constructed]
    by blast
qed

text \<open>
  Claim C2 as it is stated fails. The default level filter has the value \<open>Warning\<close>; the
  construction from a blob whose level filter has the value \<open>Error\<close> only succeeds, and the
  level filter of the store has no entry for \<open>Warning\<close>.
\<close>

theorem constructor_row_filters_counterexample:
  "(case map_of (shared_filtersRow example_shared) ''Level'' of
      Some lv \<Rightarrow> map_of lv ''Warning'' = Some visible
    | None \<Rightarrow> False)
   \<and> (case (IndexStore_constructor example_shared stale_state False :: error + unit IndexStore) of
        Inr s \<Rightarrow> (case map_of (filtersRow s) ''Level'' of
                    Some lv \<Rightarrow> map_of lv ''Warning'' = None
                  | None \<Rightarrow> False)
      | Inl e \<Rightarrow> False)"
  by code_simp

section \<open>The visible columns\<close>

text \<open>
  Claim C3 on the code. The store by location groups by \<open>File\<close>. In the example store the
  flag of the column \<open>File\<close> is set, and the visible columns of the store by location hold
  the column \<open>File\<close>: the test against the group name runs over the permanent columns,
  and there are none.
\<close>

theorem visibleColumns_holds_grouping_column:
  "groupName resultTableStoreByLocation = ''File''
   \<and> map_of (Columns (filtersColumn example_store)) ''File'' = Some visible
   \<and> map name (visibleColumns resultTableStoreByLocation example_store)
       = [''Line'', ''File'', ''Status'', ''Message'']"
  by code_simp

section \<open>The names of the columns\<close>

text \<open>
  Claim C4 on the code. The example log has a result with the property keys \<open>File\<close>,
  \<open>tags\<close> and \<open>cwe\<close>. The store that has taken up this log is reachable, and its columns
  hold the name \<open>File\<close> twice: once for the built-in column, once for the dynamic one.
\<close>

theorem column_names_not_unique:
  "reachable example_shared example_loaded
   \<and> dynamicColumns example_loaded = [''File'', ''cwe'']
   \<and> map name (columns resultTableStoreByLocation example_loaded)
       = [''Line'', ''File'', ''Status'', ''Message'', ''Baseline'', ''Suppression'', ''Rule'',
          ''File'', ''cwe'']
   \<and> \<not> distinct (map name (columns resultTableStoreByLocation example_loaded))"
proof -
  have "dynamicColumns example_loaded = [''File'', ''cwe'']
   \<and> map name (columns resultTableStoreByLocation example_loaded)
       = [''Line'', ''File'', ''Status'', ''Message'', ''Baseline'', ''Suppression'', ''Rule'',
          ''File'', ''cwe'']
   \<and> \<not> distinct (map name (columns resultTableStoreByLocation example_loaded))"
    by code_simp
  then show ?thesis using example_loaded_reachable by simp
qed

section \<open>The message select\<close>

text \<open>
  Claim C5, as the code has it. For the message \<open>select\<close> from the host: without an
  identity (or with a falsy one) the promise resolves and the selection is cleared. With
  an identity that \<open>findResult\<close> does not resolve, the handler throws: the promise of the
  handler is rejected with the error, and the state of the store is the state before the
  message, so the message is dropped and the store goes on with the next one. With an
  identity that resolves, the promise resolves; when the active tab has a store (the tabs
  \<open>Locations\<close> and \<open>Rules\<close>), \<open>select\<close> of that store is applied to the result, which makes
  the item row of the result the selection; when the active tab is \<open>Logs\<close>, which has no
  store, the message changes nothing.
\<close>

theorem onMessage_select:
  "(ident = None \<or> (\<exists>falsy. ident = Some falsy \<and> \<not> js_truthy falsy) \<longrightarrow>
      fst (onMessage sh active (Command (cmd_select ident)) s) = Resolved
      \<and> selection (snd (onMessage sh active (Command (cmd_select ident)) s)) = None)
   \<and> (js_truthy i \<and> findResult sh (logs s) i = None \<longrightarrow>
      onMessage sh active (Command (cmd_select (Some i))) s
        = (Rejected (Error ''Unexpected: result undefined''), s))
   \<and> (js_truthy i \<and> findResult sh (logs s) i = Some result \<and> tab_has_store (selectedTab s) \<longrightarrow>
      onMessage sh active (Command (cmd_select (Some i))) s
        = (Resolved, select sh active result s)
      \<and> selection (select sh active result s) = Some (RowItem result))
   \<and> (js_truthy i \<and> findResult sh (logs s) i = Some result \<and> \<not> tab_has_store (selectedTab s) \<longrightarrow>
      onMessage sh active (Command (cmd_select (Some i))) s = (Resolved, s))"
  by (auto simp: onMessage_def select_def split: option.splits)

text \<open>The theorem of claim C5 on the loaded example store: no identity, an identity that
  is unknown, and the identity of the example result.\<close>

theorem onMessage_select_witness:
  "selection (snd (onMessage example_shared False (Command (cmd_select None)) example_selected))
     = None
   \<and> js_truthy (JStr ''nowhere'')
   \<and> findResult example_shared (logs example_loaded) (JStr ''nowhere'') = None
   \<and> onMessage example_shared False (Command (cmd_select (Some (JStr ''nowhere'')))) example_loaded
       = (Rejected (Error ''Unexpected: result undefined''), example_loaded)
   \<and> js_truthy (r_id example_result)
   \<and> findResult example_shared (logs example_loaded) (r_id example_result) = Some example_result
   \<and> tab_has_store (selectedTab example_loaded)
   \<and> selection (snd (onMessage example_shared False
                       (Command (cmd_select (Some (r_id example_result)))) example_loaded))
       = Some (RowItem example_result)"
proof -
  have a: "js_truthy (JStr ''nowhere'')" by simp
  have b: "findResult example_shared (logs example_loaded) (JStr ''nowhere'') = None"
    by code_simp
  have c: "js_truthy (r_id example_result)" by code_simp
  have d: "findResult example_shared (logs example_loaded) (r_id example_result)
             = Some example_result"
    by code_simp
  have e: "tab_has_store (selectedTab example_loaded)" by code_simp
  show ?thesis
    using a b c d e
      onMessage_select [of None example_shared False example_selected "JStr ''nowhere''"]
      onMessage_select [of None example_shared False example_loaded "JStr ''nowhere''"]
      onMessage_select [of None example_shared False example_loaded "r_id example_result"
                           example_result]
    by simp
qed

text \<open>
  Claim C5 as it is stated fails. The loaded example store with the tab \<open>Logs\<close> in front is
  reachable; the identity of the example result resolves there, the promise resolves, and
  after the message no result is selected.
\<close>

theorem onMessage_select_Logs_counterexample:
  "reachable example_shared example_logs_tab
   \<and> selectedTab example_logs_tab = Logs
   \<and> js_truthy (r_id example_result)
   \<and> findResult example_shared (logs example_logs_tab) (r_id example_result)
       = Some example_result
   \<and> fst (onMessage example_shared False
              (Command (cmd_select (Some (r_id example_result)))) example_logs_tab) = Resolved
   \<and> selection (snd (onMessage example_shared False
                       (Command (cmd_select (Some (r_id example_result)))) example_logs_tab))
       = None"
proof -
  have r: "reachable example_shared example_logs_tab"
    unfolding example_logs_tab_def using example_loaded_reachable by (rule reachable.tab_click)
  have e: "selectedTab example_logs_tab = Logs
   \<and> js_truthy (r_id example_result)
   \<and> findResult example_shared (logs example_logs_tab) (r_id example_result)
       = Some example_result
   \<and> fst (onMessage example_shared False
              (Command (cmd_select (Some (r_id example_result)))) example_logs_tab) = Resolved
   \<and> selection (snd (onMessage example_shared False
                       (Command (cmd_select (Some (r_id example_result)))) example_logs_tab))
       = None"
    by code_simp
  show ?thesis using r e by simp
qed

section \<open>The message select to the host\<close>

text \<open>
  Claim C6. When the selection changes, one message \<open>select\<close> is posted to the host if the
  new row is an item whose result has a uri that is not empty and a physical location at
  its first location, and this panel is active; it carries the identity of the result.
  In every other case nothing is posted. In particular a panel that is not active posts
  nothing, also when the selection changes on a message \<open>select\<close> from the host.
\<close>

theorem select_posted_iff:
  assumes "selection s \<noteq> row"
  shows "(active \<and> (\<exists>result. row = Some (RowItem result)
              \<and> r_uri result \<noteq> None \<and> r_uri result \<noteq> Some []
              \<and> first_physicalLocation result \<noteq> None)
          \<longrightarrow> (\<exists>m. is_select m \<and> posted (selection_set sh active row s) = posted s @ [m]))
       \<and> (\<not> (active \<and> (\<exists>result. row = Some (RowItem result)
              \<and> r_uri result \<noteq> None \<and> r_uri result \<noteq> Some []
              \<and> first_physicalLocation result \<noteq> None))
          \<longrightarrow> posted (selection_set sh active row s) = posted s)
       \<and> posted (snd (onMessage sh False (Command (cmd_select ident)) s)) = posted s"
proof -
  have a: "active \<and> (\<exists>result. row = Some (RowItem result)
              \<and> r_uri result \<noteq> None \<and> r_uri result \<noteq> Some []
              \<and> first_physicalLocation result \<noteq> None)
          \<longrightarrow> (\<exists>m. is_select m \<and> posted (selection_set sh active row s) = posted s @ [m])"
    using assms
    by (auto simp: selection_set_def autorun_def postSelectArtifact_def
             split: option.splits Row.splits prod.splits)
  have b: "\<not> (active \<and> (\<exists>result. row = Some (RowItem result)
              \<and> r_uri result \<noteq> None \<and> r_uri result \<noteq> Some []
              \<and> first_physicalLocation result \<noteq> None))
          \<longrightarrow> posted (selection_set sh active row s) = posted s"
    by (auto simp: selection_set_def autorun_def postSelectArtifact_def
             split: option.splits Row.splits prod.splits)
  have c: "posted (snd (onMessage sh False (Command (cmd_select ident)) s)) = posted s"
    by (auto simp: onMessage_def select_def selection_set_inactive split: option.splits)
  show ?thesis using a b c by blast
qed

text \<open>The theorem of claim C6 on the loaded example store, where nothing is selected: the
  example result has a location, and its selection is posted by the active panel only.\<close>

theorem select_posted_iff_witness:
  "selection example_loaded \<noteq> Some (RowItem example_result)
   \<and> r_uri example_result \<noteq> None \<and> r_uri example_result \<noteq> Some []
   \<and> first_physicalLocation example_result \<noteq> None
   \<and> (\<exists>m. is_select m
         \<and> posted (selection_set example_shared True (Some (RowItem example_result)) example_loaded)
             = posted example_loaded @ [m])
   \<and> posted (selection_set example_shared False (Some (RowItem example_result)) example_loaded)
       = posted example_loaded"
proof -
  have a: "selection example_loaded \<noteq> Some (RowItem example_result)" by code_simp
  have b: "r_uri example_result \<noteq> None \<and> r_uri example_result \<noteq> Some []
      \<and> first_physicalLocation example_result \<noteq> None"
    by code_simp
  show ?thesis
    using a b
      select_posted_iff [OF a, of True example_shared]
      select_posted_iff [OF a, of False example_shared]
    by blast
qed

section \<open>The discovery of dynamic columns\<close>

text \<open>
  In every reachable state the dynamic columns are pairwise distinct and the key \<open>tags\<close> is
  not among them. A log that is taken up a second time adds nothing, and each of its keys
  is in the dynamic columns exactly once. A key that a log adds, for which the map of
  column visibilities has no entry and which is not the name of a member of
  \<open>Object.prototype\<close>, gets the entry \<open>false\<close>.
\<close>

lemma dynamicColumns_distinct_and_seeded:
  assumes "reachable sh s"
  shows "distinct (dynamicColumns s) \<and> ''tags'' \<notin> set (dynamicColumns s)
    \<and> dynamicColumns (logs_push sh active' log (logs_push sh active log s))
        = dynamicColumns (logs_push sh active log s)
    \<and> (\<forall>key \<in> set (propertyKeys (augmentLog sh log)).
          count_list (dynamicColumns (logs_push sh active' log (logs_push sh active log s))) key = 1)
    \<and> (\<forall>key. key \<notin> set (dynamicColumns s)
              \<and> key \<in> set (dynamicColumns (logs_push sh active log s))
              \<and> map_of (Columns (filtersColumn s)) key = None
              \<and> key \<notin> set Object_prototype_names
          \<longrightarrow> map_of (Columns (filtersColumn (logs_push sh active log s))) key = Some hidden)"
proof -
  let ?log = "augmentLog sh log"
  let ?s1 = "logs_push sh active log s"
  let ?s2 = "logs_push sh active' log ?s1"
  have ok: "dynamicColumns_ok s" using assms by (rule reachable_dynamicColumns_ok)
  have d1: "dynamicColumns ?s1 = fold Set_add (propertyKeys ?log) (dynamicColumns s)"
    by (simp add: logs_push_dynamicColumns extractDynamicColumns_dynamicColumns)
  have keys1: "set (propertyKeys ?log) \<subseteq> set (dynamicColumns ?s1)"
    by (simp add: d1 fold_Set_add_set)
  have d2: "dynamicColumns ?s2 = dynamicColumns ?s1"
    using keys1
    by (simp add: logs_push_dynamicColumns [of sh active' log ?s1]
          extractDynamicColumns_dynamicColumns fold_Set_add_absorb)
  have dist1: "distinct (dynamicColumns ?s1)"
    using ok by (simp add: d1 fold_Set_add_distinct dynamicColumns_ok_def)
  have once: "\<forall>key \<in> set (propertyKeys ?log). count_list (dynamicColumns ?s2) key = 1"
    using keys1 dist1 by (auto simp: d2 distinct_count_list_1)
  have seeded: "\<forall>key. key \<notin> set (dynamicColumns s) \<and> key \<in> set (dynamicColumns ?s1)
              \<and> map_of (Columns (filtersColumn s)) key = None
              \<and> key \<notin> set Object_prototype_names
          \<longrightarrow> map_of (Columns (filtersColumn ?s1)) key = Some hidden"
    by (auto simp: d1 fold_Set_add_set logs_push_filtersColumn extractDynamicColumns_def
          fold_addDynamicColumn_lookup Columns_truthy_def)
  show ?thesis
    using ok d2 once seeded by (simp add: dynamicColumns_ok_def)
qed

text \<open>So it is on the example store and the example log, whose result has the keys
  \<open>File\<close>, \<open>tags\<close> and \<open>cwe\<close>.\<close>

lemma dynamicColumns_distinct_and_seeded_example:
  "reachable example_shared example_store
   \<and> ''cwe'' \<in> set (propertyKeys (augmentLog example_shared example_log))
   \<and> ''cwe'' \<notin> set (dynamicColumns example_store)
   \<and> ''cwe'' \<in> set (dynamicColumns (logs_push example_shared False example_log example_store))
   \<and> map_of (Columns (filtersColumn example_store)) ''cwe'' = None
   \<and> ''cwe'' \<notin> set Object_prototype_names
   \<and> count_list (dynamicColumns (logs_push example_shared False example_log
        (logs_push example_shared False example_log example_store))) ''cwe'' = 1
   \<and> map_of (Columns (filtersColumn (logs_push example_shared False example_log example_store)))
        ''cwe'' = Some hidden"
proof -
  have a: "''cwe'' \<in> set (propertyKeys (augmentLog example_shared example_log))" by code_simp
  have b: "''cwe'' \<notin> set (dynamicColumns example_store)" by code_simp
  have c: "''cwe'' \<in> set (dynamicColumns (logs_push example_shared False example_log
             example_store))"
    by code_simp
  have d: "map_of (Columns (filtersColumn example_store)) ''cwe'' = None" by code_simp
  have e: "''cwe'' \<notin> set Object_prototype_names" by code_simp
  show ?thesis
    using a b c d e example_store_reachable
      dynamicColumns_distinct_and_seeded [OF example_store_reachable,
        of False example_log False]
    by blast
qed

text \<open>
  Claim C7 on the code. A log whose result has the property \<open>constructor\<close> is sent to the
  example store, where the map of column visibilities has no entry for that key. The
  store that has taken up the log is reachable; the key is added to the dynamic columns,
  and the map still has no entry for it: the test \<open>!this.filtersColumn.Columns[key]\<close> finds
  the member \<open>constructor\<close> that the map inherits, and the entry \<open>false\<close> is not written.
\<close>

theorem prototype_key_not_seeded:
  "reachable example_shared prototype_key_loaded
   \<and> map_of (Columns (filtersColumn example_store)) ''constructor'' = None
   \<and> dynamicColumns example_store = []
   \<and> dynamicColumns prototype_key_loaded = [''constructor'']
   \<and> map_of (Columns (filtersColumn prototype_key_loaded)) ''constructor'' = None"
proof -
  have r: "reachable example_shared prototype_key_loaded"
    unfolding prototype_key_loaded_def using example_store_reachable
    by (rule reachable.message)
  have e: "map_of (Columns (filtersColumn example_store)) ''constructor'' = None
   \<and> dynamicColumns example_store = []
   \<and> dynamicColumns prototype_key_loaded = [''constructor'']
   \<and> map_of (Columns (filtersColumn prototype_key_loaded)) ''constructor'' = None"
    by code_simp
  show ?thesis using r e by simp
qed

section \<open>The selection and the empty list of logs\<close>

text \<open>
  Claim C8. Whatever row is selected, a removal that leaves the list of logs empty
  clears the selection. An addition never leaves the list empty. For the message
  \<open>spliceLogs\<close> as a whole: when the list had a log before and is empty afterwards, the
  selection is cleared.
\<close>

theorem logs_emptied_clears_selection:
  "(logs (logs_splice sh active i s) = [] \<longrightarrow> selection (logs_splice sh active i s) = None)
   \<and> logs (logs_push sh active log s) \<noteq> []
   \<and> (logs s \<noteq> []
        \<and> logs (snd (onMessage sh active (Command (cmd_spliceLogs removed added)) s)) = []
      \<longrightarrow> selection (snd (onMessage sh active (Command (cmd_spliceLogs removed added)) s)) = None)"
proof -
  have a: "logs (logs_splice sh active i s) = [] \<longrightarrow> selection (logs_splice sh active i s) = None"
    by (simp add: logs_splice_def logs_observer_def)
  have c: "logs s \<noteq> [] \<Longrightarrow>
        logs (snd (onMessage sh active (Command (cmd_spliceLogs removed added)) s)) = []
        \<longrightarrow> selection (snd (onMessage sh active (Command (cmd_spliceLogs removed added)) s)) = None"
    unfolding onMessage_def EventData.case CommandExtensionToPanel.case
    by (rule spliceLogs_added_inv, rule spliceLogs_removed_inv) simp
  show ?thesis using a c logs_push_nonempty by blast
qed

text \<open>The theorem of claim C8 on the loaded example store with the example result
  selected: the only log is removed.\<close>

theorem logs_emptied_clears_selection_witness:
  "selection example_selected = Some (RowItem example_result)
   \<and> logs example_selected \<noteq> []
   \<and> logs (logs_splice example_shared True 0 example_selected) = []
   \<and> selection (logs_splice example_shared True 0 example_selected) = None
   \<and> logs (snd (onMessage example_shared True
                  (Command (cmd_spliceLogs [''file:///log.sarif''] [])) example_selected)) = []
   \<and> selection (snd (onMessage example_shared True
                  (Command (cmd_spliceLogs [''file:///log.sarif''] [])) example_selected)) = None"
proof -
  have a: "selection example_selected = Some (RowItem example_result)" by code_simp
  have b: "logs example_selected \<noteq> []" by code_simp
  have c: "logs (logs_splice example_shared True 0 example_selected) = []" by code_simp
  have d: "logs (snd (onMessage example_shared True
                  (Command (cmd_spliceLogs [''file:///log.sarif''] [])) example_selected)) = []"
    by code_simp
  show ?thesis
    using a b c d
      logs_emptied_clears_selection [of example_shared True 0 example_selected example_log
        "[''file:///log.sarif'']" "[]"]
    by blast
qed

section \<open>The status of a result\<close>

text \<open>
  Claim C9. After \<open>setResultStatus(id, status)\<close>, \<open>getResultStatus(id)\<close> returns the status,
  and exactly one message has been posted, the message \<open>setResultStatus\<close> with the identity
  and the status. \<open>getResultStatus\<close> returns \<open>unchecked\<close> for an identity that the map does
  not have.
\<close>

theorem setResultStatus_getResultStatus:
  "getResultStatus (setResultStatus resultId status s) resultId = status
   \<and> posted (setResultStatus resultId status s) = posted s @ [post_setResultStatus resultId status]
   \<and> (resultStatuses s other = None \<longrightarrow> getResultStatus s other = Unchecked)"
  by (simp add: getResultStatus_def setResultStatus_def)

text \<open>The theorem of claim C9 on the example store: the result \<open>2\<close> is marked as a false
  positive; the result \<open>3\<close> has no status.\<close>

theorem setResultStatus_getResultStatus_witness:
  "resultStatuses example_store ''3'' = None
   \<and> getResultStatus example_store ''3'' = Unchecked
   \<and> getResultStatus (setResultStatus ''2'' False_positive example_store) ''2'' = False_positive
   \<and> posted (setResultStatus ''2'' False_positive example_store)
       = posted example_store @ [post_setResultStatus ''2'' False_positive]"
proof -
  have a: "resultStatuses example_store ''3'' = None" by code_simp
  show ?thesis
    using a setResultStatus_getResultStatus [of "''2''" False_positive example_store "''3''"]
    by blast
qed

section \<open>The arrow keys\<close>

text \<open>
  Claim C10. When no row is selected, the key \<open>ArrowDown\<close> selects the first of the rows of
  the table, as the key \<open>ArrowUp\<close> does.
\<close>

theorem ArrowDown_without_selection:
  assumes "selection s = None"
  shows "selection (onKeyDown sh active ''ArrowDown'' (row # rows) s) = Some row
   \<and> selection (onKeyDown sh active ''ArrowUp'' (row # rows) s) = Some row"
  using assms by (simp add: onKeyDown_def indexOf_def nullish_def)

text \<open>The theorem of claim C10 on the loaded example store and its rows.\<close>

theorem ArrowDown_without_selection_witness:
  "selection example_loaded = None
   \<and> selection (onKeyDown example_shared True ''ArrowDown'' example_rows example_loaded)
       = Some (RowGroup ''src/a.c'' True [example_result])"
proof -
  have a: "selection example_loaded = None" by code_simp
  have b: "example_rows = RowGroup ''src/a.c'' True [example_result] # [RowItem example_result]"
    by (simp add: example_rows_def)
  show ?thesis
    using a ArrowDown_without_selection [OF a, of example_shared True
        "RowGroup ''src/a.c'' True [example_result]" "[RowItem example_result]"]
    unfolding b by blast
qed

end
